theory Spec2Isabelle
  imports Main
begin

section \<open>JavaScript values and built-in conversions used by server.ts\<close>

text \<open>
  Strings are modelled by their UTF-8 byte sequence: a \<^typ>\<open>string\<close> is a list of
  8-bit characters. The empty string is the empty list.
\<close>

subsection \<open>Decimal rendering: \<open>BigInt.prototype.toString\<close> and \<open>Number::toString\<close> on integers\<close>

definition digit_char :: "int \<Rightarrow> char" where
  "digit_char d = char_of (48 + d)"

function decimal_digits :: "int \<Rightarrow> string" where
  "decimal_digits n =
     (if n < 10 then [digit_char n] else decimal_digits (n div 10) @ [digit_char (n mod 10)])"
  by pat_completeness auto
termination
  by (relation "measure nat") auto

declare decimal_digits.simps [simp del]

definition BigInt_toString :: "int \<Rightarrow> string" where
  "BigInt_toString i =
     (if i < 0 then CHR ''-'' # decimal_digits (- i) else decimal_digits i)"

subsection \<open>Request values\<close>

text \<open>
  A value of a parsed JSON request body. A number \<open>JNum v s\<close> stands for a double by
  what the code can observe of it: \<open>v\<close> is its value when that is an integer (\<open>None\<close>
  for a fractional number), and \<open>s\<close> is the string \<open>Number::toString\<close> gives it,
  the shortest digits that read back as the same double. For an integer of magnitude up
  to \<open>2^53\<close> these are its plain decimal digits (\<open>js_int\<close> below); a larger one
  prints differently: \<open>2^60\<close> is \<open>JNum (Some 1152921504606846976)
  ''1152921504606847000''\<close>. An object is the list of its own properties, with distinct
  keys. A property that is not there reads as \<open>undefined\<close>, modelled as \<open>None\<close>.
\<close>

datatype json =
    JNull
  | JBool bool
  | JNum "int option" string
  | JStr string
  | JArr "json list"
  | JObj "(string \<times> json) list"

text \<open>
  The number with the integer value \<open>n\<close>, for \<open>n\<close> of magnitude up to \<open>2^53\<close>; 0 and
  -0 are both \<open>js_int 0\<close>.
\<close>

definition js_int :: "int \<Rightarrow> json" where
  "js_int n = JNum (Some n) (BigInt_toString n)"

text \<open>What a JavaScript \<open>throw\<close> carries, as far as the handlers can tell it apart.\<close>

datatype exn =
    TypeError
  | RangeError
  | SyntaxError
  | Thrown string \<comment> \<open>an error raised by a collaborator (hash primitive, prover), with its message\<close>
  | ProofFailed exn \<comment> \<open>\<open>new Error(`Failed to generate ZK proof: ${error.message}`)\<close>\<close>

fun truthy :: "json \<Rightarrow> bool" where
  "truthy JNull = False"
| "truthy (JBool b) = b"
| "truthy (JNum v s) = (v \<noteq> Some 0)"
| "truthy (JStr s) = (s \<noteq> [])"
| "truthy (JArr xs) = True"
| "truthy (JObj kvs) = True"

text \<open>\<open>!v\<close> for a destructured property \<open>v\<close>, where \<open>undefined\<close> is falsy.\<close>

definition js_not :: "json option \<Rightarrow> bool" where
  "js_not v = (case v of None \<Rightarrow> True | Some j \<Rightarrow> \<not> truthy j)"

definition Array_isArray :: "json option \<Rightarrow> bool" where
  "Array_isArray v = (case v of Some (JArr xs) \<Rightarrow> True | _ \<Rightarrow> False)"

text \<open>
  \<open>const { k } = req.body\<close>, for a body that \<open>express.json()\<close> has parsed: an
  object or an array. An array has none of the property names the handlers read.
\<close>

definition get_prop :: "json \<Rightarrow> string \<Rightarrow> json option" where
  "get_prop body k = (case body of JObj kvs \<Rightarrow> map_of kvs k | _ \<Rightarrow> None)"

text \<open>
  \<open>ToString\<close> and \<open>Array.prototype.join\<close>. A number renders as
  \<open>Number::toString\<close> prints it. An array renders as its elements joined by
  commas; \<open>join\<close> renders \<open>null\<close> elements as the empty string. A parsed object
  renders as \<open>[object Object]\<close>, unless it has an own property \<open>toString\<close>, which is
  not callable and makes the conversion throw a TypeError.
\<close>

fun js_toString :: "json \<Rightarrow> exn + string"
  and join_element :: "json \<Rightarrow> exn + string"
  and js_join :: "string \<Rightarrow> json list \<Rightarrow> exn + string" where
  "js_toString JNull = Inr ''null''"
| "js_toString (JBool b) = Inr (if b then ''true'' else ''false'')"
| "js_toString (JNum v s) = Inr s"
| "js_toString (JStr s) = Inr s"
| "js_toString (JArr xs) = js_join '','' xs"
| "js_toString (JObj kvs) =
     (if ''toString'' \<in> set (map fst kvs) then Inl TypeError else Inr ''[object Object]'')"
| "join_element JNull = Inr []"
| "join_element (JBool b) = js_toString (JBool b)"
| "join_element (JNum v s) = js_toString (JNum v s)"
| "join_element (JStr s) = js_toString (JStr s)"
| "join_element (JArr xs) = js_toString (JArr xs)"
| "join_element (JObj kvs) = js_toString (JObj kvs)"
| "js_join sep [] = Inr []"
| "js_join sep [x] = join_element x"
| "js_join sep (x # y # ys) =
     (case join_element x of
        Inl e \<Rightarrow> Inl e
      | Inr s \<Rightarrow> (case js_join sep (y # ys) of Inl e \<Rightarrow> Inl e | Inr t \<Rightarrow> Inr (s @ sep @ t)))"

text \<open>\<open>v.toString()\<close> on a value \<open>v\<close>: \<open>null\<close> has no methods.\<close>

definition toString_method :: "json \<Rightarrow> exn + string" where
  "toString_method v = (case v of JNull \<Rightarrow> Inl TypeError | _ \<Rightarrow> js_toString v)"

subsection \<open>\<open>BigInt(v)\<close>\<close>

text \<open>
  The white space that \<open>StringToBigInt\<close> trims (\<open>WhiteSpace\<close> and \<open>LineTerminator\<close> of
  ECMAScript), each code point as its UTF-8 bytes.
\<close>

definition js_whitespace :: "string list" where
  "js_whitespace = map (map char_of)
     [[0x09], [0x0A], [0x0B], [0x0C], [0x0D], [0x20 :: nat],
      [0xC2, 0xA0], [0xE1, 0x9A, 0x80],
      [0xE2, 0x80, 0x80], [0xE2, 0x80, 0x81], [0xE2, 0x80, 0x82], [0xE2, 0x80, 0x83],
      [0xE2, 0x80, 0x84], [0xE2, 0x80, 0x85], [0xE2, 0x80, 0x86], [0xE2, 0x80, 0x87],
      [0xE2, 0x80, 0x88], [0xE2, 0x80, 0x89], [0xE2, 0x80, 0x8A],
      [0xE2, 0x80, 0xA8], [0xE2, 0x80, 0xA9], [0xE2, 0x80, 0xAF],
      [0xE2, 0x81, 0x9F], [0xE3, 0x80, 0x80], [0xEF, 0xBB, 0xBF]]"

fun starts_with :: "string \<Rightarrow> string \<Rightarrow> bool" where
  "starts_with s [] = True"
| "starts_with [] (c # w) = False"
| "starts_with (d # s) (c # w) = (d = c \<and> starts_with s w)"

text \<open>Drop leading occurrences of the sequences of \<open>tbl\<close>; \<open>n\<close> bounds the number of rounds.\<close>

fun strip_prefixes :: "string list \<Rightarrow> nat \<Rightarrow> string \<Rightarrow> string" where
  "strip_prefixes tbl 0 s = s"
| "strip_prefixes tbl (Suc n) s =
     (case find (starts_with s) tbl of
        None \<Rightarrow> s
      | Some w \<Rightarrow> if w = [] then s else strip_prefixes tbl n (drop (length w) s))"

definition js_trim :: "string \<Rightarrow> string" where
  "js_trim s =
     (let t = strip_prefixes js_whitespace (length s) s
      in rev (strip_prefixes (map rev js_whitespace) (length t) (rev t)))"

definition digit_of :: "char \<Rightarrow> int option" where
  "digit_of c =
     (let k = (of_char c :: int) in
      if 48 \<le> k \<and> k \<le> 57 then Some (k - 48)
      else if 97 \<le> k \<and> k \<le> 102 then Some (k - 87)
      else if 65 \<le> k \<and> k \<le> 70 then Some (k - 55)
      else None)"

fun parse_digits :: "int \<Rightarrow> string \<Rightarrow> int \<Rightarrow> int option" where
  "parse_digits r [] acc = Some acc"
| "parse_digits r (c # cs) acc =
     (case digit_of c of
        None \<Rightarrow> None
      | Some d \<Rightarrow> if d < r then parse_digits r cs (r * acc + d) else None)"

definition parse_number :: "int \<Rightarrow> string \<Rightarrow> int option" where
  "parse_number r cs = (if cs = [] then None else parse_digits r cs 0)"

text \<open>
  \<open>StringToBigInt\<close>: white space only is 0; otherwise decimal digits with an optional
  sign, or an unsigned literal with prefix \<open>0x\<close>, \<open>0o\<close> or \<open>0b\<close> in either case;
  anything else is no BigInt.
\<close>

definition StringToBigInt :: "string \<Rightarrow> int option" where
  "StringToBigInt str =
     (let t = js_trim str in
      if t = [] then Some 0
      else if starts_with t ''0x'' \<or> starts_with t ''0X'' then parse_number 16 (drop 2 t)
      else if starts_with t ''0o'' \<or> starts_with t ''0O'' then parse_number 8 (drop 2 t)
      else if starts_with t ''0b'' \<or> starts_with t ''0B'' then parse_number 2 (drop 2 t)
      else if starts_with t ''+'' then parse_number 10 (drop 1 t)
      else if starts_with t ''-'' then map_option uminus (parse_number 10 (drop 1 t))
      else parse_number 10 t)"

text \<open>
  \<open>BigInt(v)\<close>: an integer-valued number converts to its exact value and a fractional
  one throws a RangeError; a boolean converts to 1 or 0, a string by \<open>StringToBigInt\<close>
  (SyntaxError when that fails); \<open>null\<close> throws a TypeError; an array or object is first
  converted to a string.
\<close>

definition BigInt_of_string :: "string \<Rightarrow> exn + int" where
  "BigInt_of_string s = (case StringToBigInt s of None \<Rightarrow> Inl SyntaxError | Some n \<Rightarrow> Inr n)"

fun js_BigInt :: "json \<Rightarrow> exn + int" where
  "js_BigInt JNull = Inl TypeError"
| "js_BigInt (JBool b) = Inr (if b then 1 else 0)"
| "js_BigInt (JNum v s) = (case v of None \<Rightarrow> Inl RangeError | Some n \<Rightarrow> Inr n)"
| "js_BigInt (JStr s) = BigInt_of_string s"
| "js_BigInt (JArr xs) =
     (case js_toString (JArr xs) of Inl e \<Rightarrow> Inl e | Inr s \<Rightarrow> BigInt_of_string s)"
| "js_BigInt (JObj kvs) =
     (case js_toString (JObj kvs) of Inl e \<Rightarrow> Inl e | Inr s \<Rightarrow> BigInt_of_string s)"

section \<open>Collaborators and effects\<close>

text \<open>
  What \<open>poseidon(inputs)\<close> of circomlibjs hands back, as \<open>hashWithPoseidon\<close> tells it
  apart: a bigint, an object in the field's internal representation, or anything else
  (carried as \<open>String\<close> renders it).
\<close>

datatype 'o hash_result = HBigInt int | HObject 'o | HOther string

record raw_proof =
  pi_a :: "string list"
  pi_b :: "string list list"
  pi_c :: "string list"

text \<open>The witness object handed to the prover; a property may hold any request value.\<close>

record CircuitInputs =
  username :: "json option"
  password :: "json option"
  username_hash :: "json option"
  credential_hash :: "json option"
  nonce :: "json option"
  result_hash :: "json option"

text \<open>An array element read by index; out of range reads \<open>undefined\<close>, here \<open>None\<close>.\<close>

definition js_index :: "'a list \<Rightarrow> nat \<Rightarrow> 'a option" where
  "js_index xs i = (if i < length xs then Some (xs ! i) else None)"

record ZKProofData =
  a :: "string option list"
  b :: "string option list list"
  c :: "string option list"

record ProofResult =
  proof_data :: ZKProofData \<comment> \<open>the property \<open>proof\<close>\<close>
  publicSignals :: "string list"

text \<open>
  The opaque collaborators: \<open>poseidon\<close> stands for \<open>buildPoseidon()\<close> followed by the
  call of the hash on the inputs (either may throw), \<open>F_toString\<close> for
  \<open>poseidon.F.toString\<close>, \<open>fullProve\<close> for \<open>groth16.fullProve\<close> on the fixed circuit
  and key files.
\<close>

record 'o env =
  poseidon :: "int list \<Rightarrow> exn + 'o hash_result"
  F_toString :: "'o \<Rightarrow> string"
  fullProve :: "CircuitInputs \<Rightarrow> exn + raw_proof \<times> string list"

text \<open>
  A computation yields the calls it made, in order, and then a value or a thrown error.
\<close>

datatype call =
    StringToField "json option" \<comment> \<open>\<open>ZKProofGenerator.stringToFieldElement\<close> entered\<close>
  | Poseidon "int list" \<comment> \<open>the hash primitive invoked\<close>
  | FullProve CircuitInputs \<comment> \<open>the prover invoked\<close>

type_synonym 'a comp = "call list \<times> (exn + 'a)"

definition ret :: "'a \<Rightarrow> 'a comp" where
  "ret x = ([], Inr x)"

definition lift :: "exn + 'a \<Rightarrow> 'a comp" where
  "lift r = ([], r)"

definition emit :: "call \<Rightarrow> unit comp" where
  "emit k = ([k], Inr ())"

definition andThen :: "'a comp \<Rightarrow> ('a \<Rightarrow> 'b comp) \<Rightarrow> 'b comp" where
  "andThen m f =
     (case m of
        (t, Inl e) \<Rightarrow> (t, Inl e)
      | (t, Inr x) \<Rightarrow> (case f x of (t', r) \<Rightarrow> (t @ t', r)))"

section \<open>ZKProofGenerator\<close>

subsection \<open>hashWithPoseidon\<close>

definition hashWithPoseidon :: "'o env \<Rightarrow> int list \<Rightarrow> string comp" where
  "hashWithPoseidon env inputs =
     andThen (emit (Poseidon inputs)) (\<lambda>_.
     andThen (lift (poseidon env inputs)) (\<lambda>hashResult.
     ret (case hashResult of
            HBigInt n \<Rightarrow> BigInt_toString n
          | HObject x \<Rightarrow> F_toString env x
          | HOther s \<Rightarrow> s)))"

subsection \<open>stringToFieldElement\<close>

text \<open>
  \<open>TextEncoder.encode\<close> converts its argument to a string first (\<open>undefined\<close> takes
  the parameter's default, the empty string) and reads off the UTF-8 bytes.
\<close>

definition utf8_bytes :: "string \<Rightarrow> nat list" where
  "utf8_bytes s = map of_char s"

definition TextEncoder_encode :: "json option \<Rightarrow> exn + nat list" where
  "TextEncoder_encode v =
     (case v of
        None \<Rightarrow> Inr []
      | Some j \<Rightarrow> (case js_toString j of Inl e \<Rightarrow> Inl e | Inr s \<Rightarrow> Inr (utf8_bytes s)))"

text \<open>
  The \<open>for\<close> loop of \<open>stringToFieldElement\<close>: \<open>i\<close> runs from 0 while
  \<open>i < Math.min(bytes.length, 31)\<close>, adding \<open>BigInt(bytes[i]) * 256n ** BigInt(i)\<close>
  to \<open>result\<close>. BigInt arithmetic is unbounded, hence \<^typ>\<open>int\<close>.
\<close>

function encode_loop :: "nat list \<Rightarrow> nat \<Rightarrow> int \<Rightarrow> int" where
  "encode_loop bytes i result =
     (if i < min (length bytes) 31
      then encode_loop bytes (i + 1) (result + int (bytes ! i) * 256 ^ i)
      else result)"
  by pat_completeness auto
termination
  by (relation "measure (\<lambda>(bytes, i, result). min (length bytes) 31 - i)") auto

declare encode_loop.simps [simp del]

definition stringToFieldElement :: "json option \<Rightarrow> exn + string" where
  "stringToFieldElement str =
     (case TextEncoder_encode str of
        Inl e \<Rightarrow> Inl e
      | Inr bytes \<Rightarrow> Inr (BigInt_toString (encode_loop bytes 0 0)))"

text \<open>The call as the handlers make it, recorded in the trace.\<close>

definition call_stringToFieldElement :: "json option \<Rightarrow> string comp" where
  "call_stringToFieldElement str =
     andThen (emit (StringToField str)) (\<lambda>_. lift (stringToFieldElement str))"

subsection \<open>generateProof\<close>

text \<open>
  Reading \<open>proof.pi_b[i][j]\<close> throws a TypeError when row \<open>i\<close> is \<open>undefined\<close>; every
  other read of a missing element yields \<open>undefined\<close>. Whatever is thrown inside the
  \<open>try\<close> is rethrown wrapped.
\<close>

definition normalized :: "raw_proof \<Rightarrow> string list \<Rightarrow> exn + ProofResult" where
  "normalized prf sigs =
     (case js_index (pi_b prf) 0 of
        None \<Rightarrow> Inl TypeError
      | Some row0 \<Rightarrow>
          (case js_index (pi_b prf) 1 of
             None \<Rightarrow> Inl TypeError
           | Some row1 \<Rightarrow>
               Inr \<lparr>proof_data =
                      \<lparr>a = [js_index (pi_a prf) 0, js_index (pi_a prf) 1],
                       b = [[js_index row0 1, js_index row0 0],
                            [js_index row1 1, js_index row1 0]],
                       c = [js_index (pi_c prf) 0, js_index (pi_c prf) 1]\<rparr>,
                    publicSignals = sigs\<rparr>))"

definition generateProof :: "'o env \<Rightarrow> CircuitInputs \<Rightarrow> ProofResult comp" where
  "generateProof env inputs =
     (case andThen (emit (FullProve inputs)) (\<lambda>_.
           andThen (lift (fullProve env inputs)) (\<lambda>(prf, sigs).
           lift (normalized prf sigs)))
      of (t, Inl error) \<Rightarrow> (t, Inl (ProofFailed error))
       | (t, Inr result) \<Rightarrow> (t, Inr result))"

section \<open>Routes\<close>

text \<open>
  The JSON object a handler sends. \<open>Error_exn e\<close> is \<open>{error: e.message}\<close> and
  \<open>Failure e\<close> is \<open>{success: false, error: e.message}\<close>, with \<open>e\<close> the error caught.
\<close>

datatype payload =
    Error_body string \<comment> \<open>\<open>{error: <text>}\<close>\<close>
  | Error_exn exn
  | Failure exn
  | Hash_body string \<comment> \<open>\<open>{hash}\<close>\<close>
  | Field_body string \<comment> \<open>\<open>{fieldElement}\<close>\<close>
  | Proof_body ZKProofData "string list" \<comment> \<open>\<open>{success: true, proof, publicSignals}\<close>\<close>
  | Auth_body string string string json ZKProofData "string list"
      \<comment> \<open>\<open>{success: true, data: {usernameHash, credentialHash, resultHash, nonce, proof, publicSignals}}\<close>\<close>

record response =
  status :: nat
  body :: payload

text \<open>A handler's outcome: the calls it made and the response it sent.\<close>

type_synonym outcome = "call list \<times> response"

text \<open>\<open>try { ... } catch (error) { res.status(500).json(...) }\<close>\<close>

definition catch500 :: "(exn \<Rightarrow> payload) \<Rightarrow> response comp \<Rightarrow> outcome" where
  "catch500 h m =
     (case m of
        (t, Inl error) \<Rightarrow> (t, \<lparr>status = 500, body = h error\<rparr>)
      | (t, Inr res) \<Rightarrow> (t, res))"

subsection \<open>POST /api/hash\<close>

fun map_BigInt :: "json list \<Rightarrow> exn + int list" where
  "map_BigInt [] = Inr []"
| "map_BigInt (i # rest) =
     (case js_BigInt i of
        Inl e \<Rightarrow> Inl e
      | Inr n \<Rightarrow> (case map_BigInt rest of Inl e \<Rightarrow> Inl e | Inr ns \<Rightarrow> Inr (n # ns)))"

text \<open>The elements of a value that passed \<open>Array.isArray\<close>.\<close>

definition elements :: "json option \<Rightarrow> json list" where
  "elements v = (case v of Some (JArr xs) \<Rightarrow> xs | _ \<Rightarrow> [])"

definition api_hash :: "'o env \<Rightarrow> json \<Rightarrow> outcome" where
  "api_hash env req_body =
     (let inputs = get_prop req_body ''inputs'' in
      if js_not inputs \<or> \<not> Array_isArray inputs
      then ([], \<lparr>status = 400, body = Error_body ''Invalid inputs. Expected array of values.''\<rparr>)
      else catch500 Error_exn
        (andThen (lift (map_BigInt (elements inputs))) (\<lambda>bigIntInputs.
         andThen (hashWithPoseidon env bigIntInputs) (\<lambda>hash.
         ret \<lparr>status = 200, body = Hash_body hash\<rparr>))))"

subsection \<open>POST /api/string-to-field\<close>

definition api_string_to_field :: "json \<Rightarrow> outcome" where
  "api_string_to_field req_body =
     (let val = get_prop req_body ''value'' in
      if js_not val
      then ([], \<lparr>status = 400, body = Error_body ''Value is required''\<rparr>)
      else catch500 Error_exn
        (andThen (call_stringToFieldElement val) (\<lambda>fieldElement.
         ret \<lparr>status = 200, body = Field_body fieldElement\<rparr>)))"

subsection \<open>POST /api/generate-proof\<close>

definition missing_fields_message :: string where
  "missing_fields_message =
     ''Missing required fields: username, password, username_hash, credential_hash, nonce, result_hash''"

definition api_generate_proof :: "'o env \<Rightarrow> json \<Rightarrow> outcome" where
  "api_generate_proof env req_body =
     (let usr = get_prop req_body ''username'';
          pwd = get_prop req_body ''password'';
          usr_hash = get_prop req_body ''username_hash'';
          cred_hash = get_prop req_body ''credential_hash'';
          nce = get_prop req_body ''nonce'';
          res_hash = get_prop req_body ''result_hash''
      in
      if js_not usr \<or> js_not pwd \<or> js_not usr_hash \<or> js_not cred_hash \<or> js_not nce
           \<or> js_not res_hash
      then ([], \<lparr>status = 400, body = Error_body missing_fields_message\<rparr>)
      else catch500 Failure
        (andThen (generateProof env
                    \<lparr>username = usr, password = pwd, username_hash = usr_hash,
                     credential_hash = cred_hash, nonce = nce, result_hash = res_hash\<rparr>)
           (\<lambda>proofData.
         ret \<lparr>status = 200,
              body = Proof_body (proof_data proofData) (publicSignals proofData)\<rparr>)))"

subsection \<open>POST /api/auth/generate-proof\<close>

text \<open>
  \<open>nonce || Math.floor(Math.random() * 1000000)\<close>: the drawn number \<open>r\<close>, an integer
  from 0 to 999999, is an input of the model; as a value it is \<open>js_int r\<close>.
\<close>

definition nonceValue :: "int \<Rightarrow> json option \<Rightarrow> json" where
  "nonceValue r nce =
     (case nce of None \<Rightarrow> js_int r | Some j \<Rightarrow> if truthy j then j else js_int r)"

text \<open>
  Lines 204 to 219 of the handler: the two field elements, the three hashes and the
  nonce, computed in this order.
\<close>

record Derived =
  usernameField :: string
  passwordField :: string
  usernameHash :: string
  credentialHash :: string
  nonce_value :: json \<comment> \<open>the constant \<open>nonceValue\<close>\<close>
  resultHash :: string

definition derive :: "'o env \<Rightarrow> int \<Rightarrow> json option \<Rightarrow> json option \<Rightarrow> json option \<Rightarrow> Derived comp"
  where
  "derive env r usr pattern nce =
     andThen (call_stringToFieldElement usr) (\<lambda>usrField.
     andThen (lift (js_join [] (elements pattern))) (\<lambda>joined.
     andThen (call_stringToFieldElement (Some (JStr joined))) (\<lambda>pwdField.
     andThen (lift (BigInt_of_string usrField)) (\<lambda>u.
     andThen (hashWithPoseidon env [u]) (\<lambda>usrHash.
     andThen (lift (BigInt_of_string usrField)) (\<lambda>u'.
     andThen (lift (BigInt_of_string pwdField)) (\<lambda>p.
     andThen (hashWithPoseidon env [u', p]) (\<lambda>credHash.
     andThen (lift (BigInt_of_string credHash)) (\<lambda>ch.
     andThen (lift (js_BigInt (nonceValue r nce))) (\<lambda>n.
     andThen (hashWithPoseidon env [ch, n]) (\<lambda>resHash.
     ret \<lparr>usernameField = usrField, passwordField = pwdField, usernameHash = usrHash,
          credentialHash = credHash, nonce_value = nonceValue r nce,
          resultHash = resHash\<rparr>)))))))))))"


text \<open>A stand-in for the collaborators, used to run the handlers on concrete requests.\<close>

definition sample_proof :: raw_proof where
  "sample_proof =
     \<lparr>pi_a = [''11'', ''12'', ''1''],
      pi_b = [[''21'', ''22''], [''23'', ''24''], [''1'', ''0'']],
      pi_c = [''31'', ''32'', ''1'']\<rparr>"

definition sample_env :: "unit env" where
  "sample_env =
     \<lparr>poseidon = (\<lambda>inputs. Inr (HBigInt (7 + sum_list inputs))),
      F_toString = (\<lambda>x. ''0''),
      fullProve = (\<lambda>inputs. Inr (sample_proof, [''1'']))\<rparr>"

text \<open>Collaborators whose prover rejects every witness.\<close>

definition rejecting_env :: "unit env" where
  "rejecting_env =
     \<lparr>poseidon = (\<lambda>inputs. Inr (HBigInt (7 + sum_list inputs))),
      F_toString = (\<lambda>x. ''0''),
      fullProve = (\<lambda>inputs. Inl (Thrown ''Cannot convert abc to a BigInt''))\<rparr>"

section \<open>Notions used in the statements and proofs\<close>

text \<open>The little-endian value of a byte list: byte \<open>i\<close> weighs \<open>256 ^ i\<close>.\<close>

fun le_value :: "nat list \<Rightarrow> int" where
  "le_value [] = 0"
| "le_value (x # xs) = int x + 256 * le_value xs"

text \<open>ASCII decimal digits, and the characters a rendered integer begins and ends with.\<close>

definition is_decimal :: "char \<Rightarrow> bool" where
  "is_decimal ch = (48 \<le> (of_char ch :: int) \<and> (of_char ch :: int) \<le> 57)"

definition token_char :: "char \<Rightarrow> bool" where
  "token_char ch = (is_decimal ch \<or> ch = CHR ''-'')"

text \<open>
  Modelled from the spec: the proof system's field modulus is not in the source, which
  takes it from snarkjs and circomlibjs. Both work over the scalar field of the curve
  BN254 (bn128), whose order is this prime of 254 bits.
\<close>

definition bn128_scalar_field :: int where
  "bn128_scalar_field =
     21888242871839275222246405745257275088548364400416034343698204186575808495617"

text \<open>
  The integer \<open>result\<close> of \<open>stringToFieldElement\<close> before it is rendered, for any
  argument.
\<close>

definition field_value :: "json option \<Rightarrow> exn + int" where
  "field_value v =
     (case TextEncoder_encode v of Inl e \<Rightarrow> Inl e | Inr bytes \<Rightarrow> Inr (encode_loop bytes 0 0))"


text \<open>The six property names \<open>/api/generate-proof\<close> destructures.\<close>

definition witness_fields :: "string list" where
  "witness_fields =
     [''username'', ''password'', ''username_hash'', ''credential_hash'', ''nonce'',
      ''result_hash'']"

text \<open>
  The spec's wording of a well-formed witness field: present and parseable as a
  non-negative integer string. The source has no such check; this definition states what
  the spec asks for, to compare the handler with.
\<close>

definition spec_wellformed_field :: "json option \<Rightarrow> bool" where
  "spec_wellformed_field v =
     (case v of Some (JStr s) \<Rightarrow> s \<noteq> [] \<and> list_all is_decimal s | _ \<Rightarrow> False)"

text \<open>Concrete requests on which the handlers are run.\<close>

definition unparsed_request :: json where
  "unparsed_request =
     JObj [(''username'', JStr ''abc''), (''password'', JStr ''1''),
           (''username_hash'', JStr ''2''), (''credential_hash'', JStr ''3''),
           (''nonce'', JStr ''4''), (''result_hash'', JStr ''5'')]"

definition incomplete_request :: json where
  "incomplete_request =
     JObj [(''username'', JStr ''1''), (''password'', JStr ''1''),
           (''username_hash'', JStr ''2''), (''credential_hash'', JStr ''3''),
           (''result_hash'', JStr ''5'')]"





definition sample_witness :: CircuitInputs where
  "sample_witness =
     \<lparr>username = Some (JStr ''117''), password = Some (JStr ''3289392''),
      username_hash = Some (JStr ''124''), credential_hash = Some (JStr ''3289516''),
      nonce = Some (JStr ''12345''), result_hash = Some (JStr ''3301868'')\<rparr>"

text \<open>
  Patterns of single decimal digits: every element is a number from 0 to 9 (\<open>js_int d\<close>
  with \<open>d\<close> from 0 to 9), rendered by \<open>join\<close> as one ASCII byte.
\<close>

definition is_digit_value :: "json \<Rightarrow> bool" where
  "is_digit_value j =
     (case j of
        JNum (Some d) s \<Rightarrow> 0 \<le> d \<and> d \<le> 9 \<and> s = BigInt_toString d
      | _ \<Rightarrow> False)"

definition digit_pattern :: "json list \<Rightarrow> bool" where
  "digit_pattern pat = list_all is_digit_value pat"

definition digit_byte :: "json \<Rightarrow> nat" where
  "digit_byte j = (case j of JNum (Some d) s \<Rightarrow> nat (48 + d) | _ \<Rightarrow> 0)"

section \<open>Basic facts\<close>

lemma truthy_js_int [simp]: "truthy (js_int k) = (k \<noteq> 0)"
  by (simp add: js_int_def)

lemma js_BigInt_js_int [simp]: "js_BigInt (js_int k) = Inr k"
  by (simp add: js_int_def)

lemma js_toString_js_int [simp]: "js_toString (js_int k) = Inr (BigInt_toString k)"
  by (simp add: js_int_def)

lemma join_element_js_int [simp]: "join_element (js_int k) = Inr (BigInt_toString k)"
  by (simp add: js_int_def)

lemma toString_method_js_int [simp]: "toString_method (js_int k) = Inr (BigInt_toString k)"
  by (simp add: js_int_def toString_method_def)

lemma js_int_eq [simp]: "js_int m = js_int n \<longleftrightarrow> m = n"
  by (auto simp: js_int_def)

lemma is_digit_value_js_int [simp]: "is_digit_value (js_int d) = (0 \<le> d \<and> d \<le> 9)"
  by (simp add: is_digit_value_def js_int_def)

lemma is_digit_value_cases:
  "is_digit_value j \<Longrightarrow> \<exists>d. 0 \<le> d \<and> d \<le> 9 \<and> j = js_int d"
  by (cases j) (auto simp: is_digit_value_def js_int_def split: option.splits)

lemma digit_byte_js_int [simp]: "digit_byte (js_int d) = nat (48 + d)"
  by (simp add: digit_byte_def js_int_def)

lemma encode_loop_stop: "min (length bytes) 31 \<le> i \<Longrightarrow> encode_loop bytes i acc = acc"
  by (subst encode_loop.simps) auto

lemma stringToFieldElement_empty: "stringToFieldElement (Some (JStr [])) = Inr ''0''"
  by code_simp

text \<open>
  The values of the README: the user name \<open>testuser\<close> and the pattern
  \<open>[0, 1, 2, 4, 8]\<close> become the \<open>username\<close> and \<open>password\<close> of its sample witness.
\<close>

lemma stringToFieldElement_testuser:
  "stringToFieldElement (Some (JStr ''testuser'')) = Inr ''8243121641273648500''"
  by code_simp

lemma stringToFieldElement_pattern:
  "js_join [] [js_int 0, js_int 1, js_int 2, js_int 4, js_int 8] = Inr ''01248''"
  "stringToFieldElement (Some (JStr ''01248'')) = Inr ''241393873200''"
  by code_simp+

section \<open>Little-endian value of the encoder loop\<close>

lemma encode_loop_sum:
  "encode_loop bytes i acc =
     acc + (\<Sum>k = i..<min (length bytes) 31. int (bytes ! k) * 256 ^ k)"
proof (induction bytes i acc rule: encode_loop.induct)
  case (1 bytes i result)
  show ?case
  proof (cases "i < min (length bytes) 31")
    case True
    then have "encode_loop bytes i result =
        encode_loop bytes (i + 1) (result + int (bytes ! i) * 256 ^ i)"
      by (subst encode_loop.simps) simp
    also have "\<dots> = result + int (bytes ! i) * 256 ^ i +
        (\<Sum>k = i + 1..<min (length bytes) 31. int (bytes ! k) * 256 ^ k)"
      using "1.IH" [OF True] .
    also have "\<dots> = result + (\<Sum>k = i..<min (length bytes) 31. int (bytes ! k) * 256 ^ k)"
      using True by (simp add: sum.atLeast_Suc_lessThan)
    finally show ?thesis .
  next
    case False
    then have stop: "min (length bytes) 31 \<le> i" by linarith
    then have "{i..<min (length bytes) 31} = {}" by simp
    with stop show ?thesis by (simp only: encode_loop_stop sum.empty add_0_right)
  qed
qed

lemma le_value_sum: "le_value xs = (\<Sum>k<length xs. int (xs ! k) * 256 ^ k)"
proof (induction xs)
  case Nil
  show ?case by simp
next
  case (Cons x xs)
  have "(\<Sum>k<length (x # xs). int ((x # xs) ! k) * 256 ^ k) =
        int x + (\<Sum>k<length xs. int (xs ! k) * 256 ^ Suc k)"
    by (simp only: length_Cons sum.lessThan_Suc_shift nth_Cons_0 nth_Cons_Suc) simp
  also have "\<dots> = int x + 256 * (\<Sum>k<length xs. int (xs ! k) * 256 ^ k)"
    by (simp add: sum_distrib_left mult.assoc mult.left_commute)
  finally show ?case using Cons.IH by simp
qed

lemma encode_loop_le_value: "encode_loop bytes 0 0 = le_value (take 31 bytes)"
proof -
  have "encode_loop bytes 0 0 = (\<Sum>k<min (length bytes) 31. int (bytes ! k) * 256 ^ k)"
    by (simp add: encode_loop_sum lessThan_atLeast0)
  also have "\<dots> = (\<Sum>k<length (take 31 bytes). int (take 31 bytes ! k) * 256 ^ k)"
    by (rule sum.cong) auto
  finally show ?thesis by (simp add: le_value_sum)
qed

lemma le_value_nonneg: "0 \<le> le_value xs"
  by (induction xs) auto

lemma le_value_less: "\<forall>x\<in>set xs. x < 256 \<Longrightarrow> le_value xs < 256 ^ length xs"
proof (induction xs)
  case Nil
  show ?case by simp
next
  case (Cons x xs)
  then have "le_value xs + 1 \<le> 256 ^ length xs" and "int x \<le> 255" by auto
  then show ?case by simp
qed

lemma le_value_inject:
  "\<forall>x\<in>set xs. 0 < x \<and> x < 256 \<Longrightarrow> \<forall>y\<in>set ys. 0 < y \<and> y < 256 \<Longrightarrow>
     le_value xs = le_value ys \<Longrightarrow> xs = ys"
proof (induction xs arbitrary: ys)
  case Nil
  show ?case
  proof (cases ys)
    case Nil
    then show ?thesis by simp
  next
    case (Cons y ys')
    with Nil.prems have "0 < int y" and "0 \<le> le_value ys'" by (auto simp: le_value_nonneg)
    with Nil.prems Cons show ?thesis by simp
  qed
next
  case (Cons x xs)
  show ?case
  proof (cases ys)
    case Nil
    from Cons.prems have "0 < int x" and "0 \<le> le_value xs" by (auto simp: le_value_nonneg)
    with Cons.prems Nil show ?thesis by simp
  next
    case (Cons y ys')
    from Cons.prems(1) have x: "int x < 256" "0 \<le> int x" by auto
    from Cons.prems(2) Cons have y: "int y < 256" "0 \<le> int y" by auto
    from Cons.prems(3) Cons have eq: "int x + 256 * le_value xs = int y + 256 * le_value ys'"
      by simp
    then have "(int x + 256 * le_value xs) mod 256 = (int y + 256 * le_value ys') mod 256"
      by simp
    with x y have xy: "x = y" by simp
    with eq have "le_value xs = le_value ys'" by simp
    with Cons.IH [of ys'] Cons.prems Cons xy show ?thesis by simp
  qed
qed



lemma of_char_digit_char:
  "0 \<le> d \<Longrightarrow> d < 10 \<Longrightarrow> (of_char (digit_char d) :: int) = 48 + d"
  by (simp add: digit_char_def of_char_of)

lemma digit_of_digit_char: "0 \<le> d \<Longrightarrow> d < 10 \<Longrightarrow> digit_of (digit_char d) = Some d"
  by (simp add: digit_of_def of_char_digit_char Let_def)

lemma is_decimal_digit_char: "0 \<le> d \<Longrightarrow> d < 10 \<Longrightarrow> is_decimal (digit_char d)"
  by (simp add: is_decimal_def of_char_digit_char)

lemma parse_digits_snoc:
  "parse_digits r (cs @ [ch]) acc =
     (case parse_digits r cs acc of
        None \<Rightarrow> None
      | Some v \<Rightarrow> (case digit_of ch of
                     None \<Rightarrow> None
                   | Some d \<Rightarrow> if d < r then Some (r * v + d) else None))"
  by (induction cs arbitrary: acc) (auto split: option.splits)

lemma decimal_digits_nonempty: "decimal_digits n \<noteq> []"
  by (subst decimal_digits.simps) simp

lemma decimal_digits_all: "0 \<le> n \<Longrightarrow> list_all is_decimal (decimal_digits n)"
proof (induction n rule: decimal_digits.induct)
  case (1 n)
  show ?case
  proof (cases "n < 10")
    case True
    with "1.prems" show ?thesis
      by (subst decimal_digits.simps) (simp add: is_decimal_digit_char)
  next
    case False
    with "1.IH" "1.prems" have "list_all is_decimal (decimal_digits (n div 10))" by simp
    moreover have "is_decimal (digit_char (n mod 10))"
      by (rule is_decimal_digit_char) simp_all
    ultimately show ?thesis using False
      by (subst decimal_digits.simps) simp
  qed
qed

lemma parse_decimal_digits: "0 \<le> n \<Longrightarrow> parse_digits 10 (decimal_digits n) 0 = Some n"
proof (induction n rule: decimal_digits.induct)
  case (1 n)
  show ?case
  proof (cases "n < 10")
    case True
    with "1.prems" show ?thesis
      by (subst decimal_digits.simps) (simp add: digit_of_digit_char)
  next
    case False
    with "1.IH" "1.prems" have "parse_digits 10 (decimal_digits (n div 10)) 0 = Some (n div 10)"
      by simp
    moreover have "digit_of (digit_char (n mod 10)) = Some (n mod 10)"
      by (rule digit_of_digit_char) simp_all
    ultimately show ?thesis using False
      by (subst decimal_digits.simps) (simp add: parse_digits_snoc)
  qed
qed


lemma whitespace_ends:
  "list_all (\<lambda>w. w \<noteq> [] \<and> \<not> token_char (hd w) \<and> \<not> token_char (last w)) js_whitespace"
  by code_simp

lemma starts_with_hd: "starts_with (ch # cs) w \<Longrightarrow> w \<noteq> [] \<Longrightarrow> hd w = ch"
  by (cases w) auto

lemma strip_prefixes_none:
  "\<forall>w\<in>set tbl. \<not> starts_with s w \<Longrightarrow> strip_prefixes tbl k s = s"
proof -
  assume "\<forall>w\<in>set tbl. \<not> starts_with s w"
  then have "find (starts_with s) tbl = None" by (simp add: find_None_iff)
  then show ?thesis by (cases k) simp_all
qed

lemma strip_whitespace_token:
  assumes "token_char ch"
  shows "strip_prefixes js_whitespace k (ch # cs) = ch # cs"
proof (rule strip_prefixes_none, rule ballI)
  fix w assume "w \<in> set js_whitespace"
  with whitespace_ends have "w \<noteq> []" and "\<not> token_char (hd w)"
    by (auto simp: list_all_iff)
  with assms show "\<not> starts_with (ch # cs) w"
    using starts_with_hd by blast
qed

lemma strip_rev_whitespace_token:
  assumes "token_char ch"
  shows "strip_prefixes (map rev js_whitespace) k (ch # cs) = ch # cs"
proof (rule strip_prefixes_none, rule ballI)
  fix w assume "w \<in> set (map rev js_whitespace)"
  then obtain v where v: "v \<in> set js_whitespace" and w: "w = rev v" by auto
  with whitespace_ends have "v \<noteq> []" and "\<not> token_char (last v)"
    by (auto simp: list_all_iff)
  with w have "w \<noteq> []" and "\<not> token_char (hd w)" by (simp_all add: hd_rev)
  with assms show "\<not> starts_with (ch # cs) w"
    using starts_with_hd by blast
qed

lemma js_trim_token:
  assumes "s \<noteq> []" and "token_char (hd s)" and "token_char (last s)"
  shows "js_trim s = s"
proof -
  from assms(1) obtain ch cs where s: "s = ch # cs" by (cases s) auto
  from assms(1) obtain cs' where r: "rev s = last s # cs'"
    by (cases s rule: rev_cases) auto
  from assms(2) s have "token_char ch" by simp
  then have "strip_prefixes js_whitespace (length s) (ch # cs) = ch # cs"
    by (rule strip_whitespace_token)
  with s have one: "strip_prefixes js_whitespace (length s) s = s" by simp
  from assms(3) have "strip_prefixes (map rev js_whitespace) (length s) (last s # cs') = last s # cs'"
    by (rule strip_rev_whitespace_token)
  then have two: "strip_prefixes (map rev js_whitespace) (length s) (rev s) = rev s"
    by (simp only: r)
  show ?thesis by (simp only: js_trim_def Let_def one two rev_rev_ident)
qed

lemma decimal_digits_ends:
  assumes "0 \<le> n"
  shows "is_decimal (hd (decimal_digits n))" and "is_decimal (last (decimal_digits n))"
  using decimal_digits_all [OF assms] decimal_digits_nonempty [of n]
  by (auto simp: list_all_iff)

lemma decimal_no_prefix:
  assumes "list_all is_decimal s"
  shows "\<not> starts_with s [c0, CHR ''x'']" "\<not> starts_with s [c0, CHR ''X'']"
    "\<not> starts_with s [c0, CHR ''o'']" "\<not> starts_with s [c0, CHR ''O'']"
    "\<not> starts_with s [c0, CHR ''b'']" "\<not> starts_with s [c0, CHR ''B'']"
    "\<not> starts_with s ''+''" "\<not> starts_with s ''-''"
  using assms
  by (cases s; cases "tl s"; auto simp: is_decimal_def)+

lemma StringToBigInt_decimal_digits:
  assumes "0 \<le> n"
  shows "StringToBigInt (decimal_digits n) = Some n"
proof -
  let ?s = "decimal_digits n"
  have trim: "js_trim ?s = ?s"
    using decimal_digits_ends [OF assms] decimal_digits_nonempty [of n]
    by (intro js_trim_token) (simp_all add: token_char_def)
  from decimal_digits_all [OF assms] decimal_digits_nonempty [of n] parse_decimal_digits [OF assms]
  show ?thesis
    by (simp add: StringToBigInt_def trim Let_def decimal_no_prefix parse_number_def)
qed

lemma StringToBigInt_minus:
  assumes "js_trim s = s" and "s = CHR ''-'' # d" and "parse_number 10 d = Some v"
  shows "StringToBigInt s = Some (- v)"
proof -
  have "\<not> starts_with s ''0x''" "\<not> starts_with s ''0X''" "\<not> starts_with s ''0o''"
    "\<not> starts_with s ''0O''" "\<not> starts_with s ''0b''" "\<not> starts_with s ''0B''"
    "\<not> starts_with s ''+''" "starts_with s ''-''" "s \<noteq> []" "drop 1 s = d"
    using assms(2) by simp_all
  with assms(1,3) show ?thesis
    by (simp only: StringToBigInt_def Let_def if_False if_True simp_thms option.map)
qed

lemma StringToBigInt_toString: "StringToBigInt (BigInt_toString n) = Some n"
proof (cases "n < 0")
  case False
  then show ?thesis by (simp add: BigInt_toString_def StringToBigInt_decimal_digits)
next
  case True
  let ?d = "decimal_digits (- n)"
  let ?s = "CHR ''-'' # ?d"
  from True have pos: "0 \<le> - n" by simp
  have "last ?s = last ?d" using decimal_digits_nonempty [of "- n"] by simp
  then have trim: "js_trim ?s = ?s"
    using decimal_digits_ends [OF pos] by (intro js_trim_token) (simp_all add: token_char_def)
  have "parse_number 10 ?d = Some (- n)"
    using parse_decimal_digits [OF pos] decimal_digits_nonempty [of "- n"]
    by (simp add: parse_number_def)
  with trim have "StringToBigInt ?s = Some (- (- n))"
    by (rule StringToBigInt_minus [OF _ refl])
  with True show ?thesis by (simp add: BigInt_toString_def)
qed

lemma BigInt_of_string_toString: "BigInt_of_string (BigInt_toString n) = Inr n"
  by (simp add: BigInt_of_string_def StringToBigInt_toString)

lemma BigInt_toString_inject: "BigInt_toString m = BigInt_toString n \<Longrightarrow> m = n"
proof -
  assume eq: "BigInt_toString m = BigInt_toString n"
  have "Some m = StringToBigInt (BigInt_toString m)" by (simp only: StringToBigInt_toString)
  also have "\<dots> = StringToBigInt (BigInt_toString n)" by (simp only: eq)
  also have "\<dots> = Some n" by (simp only: StringToBigInt_toString)
  finally show ?thesis by simp
qed


lemma stringToFieldElement_JStr:
  "stringToFieldElement (Some (JStr s)) = Inr (BigInt_toString (le_value (take 31 (utf8_bytes s))))"
  by (simp add: stringToFieldElement_def TextEncoder_encode_def encode_loop_le_value)

lemma utf8_bytes_less: "\<forall>x\<in>set (utf8_bytes s). x < 256"
  by (simp add: utf8_bytes_def)

lemma utf8_bytes_take: "take n (utf8_bytes s) = utf8_bytes (take n s)"
  by (simp add: utf8_bytes_def take_map)

section \<open>The field encoder\<close>

text \<open>
  C2. For every string \<open>s\<close> with UTF-8 bytes \<open>b\<close>, \<open>stringToFieldElement\<close> returns (it
  never throws) the decimal rendering of the sum of \<open>b[i] * 256 ^ i\<close> over
  \<open>i < min (length b) 31\<close>; parsing that rendering back gives the same integer.
\<close>

theorem stringToFieldElement_little_endian:
  "stringToFieldElement (Some (JStr s)) =
     Inr (BigInt_toString
       (\<Sum>i<min (length (utf8_bytes s)) 31. int (utf8_bytes s ! i) * 256 ^ i))
   \<and> StringToBigInt (BigInt_toString
         (\<Sum>i<min (length (utf8_bytes s)) 31. int (utf8_bytes s ! i) * 256 ^ i)) =
       Some (\<Sum>i<min (length (utf8_bytes s)) 31. int (utf8_bytes s ! i) * 256 ^ i)"
  by (simp add: stringToFieldElement_def TextEncoder_encode_def encode_loop_sum
      lessThan_atLeast0 StringToBigInt_toString)

text \<open>
  C6. The encoding of \<open>s\<close> is the encoding of its first 31 bytes: a suffix appended to
  a string of 31 bytes or more changes nothing, and two strings with the same first 31
  bytes encode to the same field element.
\<close>

theorem encode_truncation:
  "stringToFieldElement (Some (JStr s)) = stringToFieldElement (Some (JStr (take 31 s)))
   \<and> (31 \<le> length s \<longrightarrow>
        stringToFieldElement (Some (JStr (s @ t))) = stringToFieldElement (Some (JStr s)))
   \<and> (take 31 s = take 31 u \<longrightarrow>
        stringToFieldElement (Some (JStr s)) = stringToFieldElement (Some (JStr u)))"
  by (simp add: stringToFieldElement_JStr utf8_bytes_take)

theorem encode_truncation_witness:
  "31 \<le> length ''0123456789012345678901234567890''
   \<and> stringToFieldElement (Some (JStr (''0123456789012345678901234567890'' @ ''xyz''))) =
       stringToFieldElement (Some (JStr ''0123456789012345678901234567890''))
   \<and> take 31 ''0123456789012345678901234567890ab'' = take 31 ''0123456789012345678901234567890cde''
   \<and> stringToFieldElement (Some (JStr ''0123456789012345678901234567890ab'')) =
       stringToFieldElement (Some (JStr ''0123456789012345678901234567890cde''))"
proof -
  have h: "31 \<le> length ''0123456789012345678901234567890''" by simp
  have k: "take 31 ''0123456789012345678901234567890ab'' =
           take 31 ''0123456789012345678901234567890cde''" by simp
  from encode_truncation [of "''0123456789012345678901234567890''" "''xyz''"] h
  have one: "stringToFieldElement (Some (JStr (''0123456789012345678901234567890'' @ ''xyz''))) =
       stringToFieldElement (Some (JStr ''0123456789012345678901234567890''))" by blast
  from encode_truncation [of "''0123456789012345678901234567890ab''" _
      "''0123456789012345678901234567890cde''"] k
  have two: "stringToFieldElement (Some (JStr ''0123456789012345678901234567890ab'')) =
       stringToFieldElement (Some (JStr ''0123456789012345678901234567890cde''))" by blast
  from h k one two show ?thesis by blast
qed

text \<open>
  C8. For every string the encoded integer is non-negative and below \<open>2 ^ 248\<close> (at most
  \<open>256 ^ 31 - 1\<close>), hence below the field modulus: the encoding never wraps.
\<close>

theorem encode_below_modulus:
  "\<exists>str v. stringToFieldElement (Some (JStr s)) = Inr str \<and> StringToBigInt str = Some v
     \<and> 0 \<le> v \<and> v < 2 ^ 248 \<and> v \<le> 256 ^ 31 - 1 \<and> v < bn128_scalar_field"
proof -
  let ?bs = "take 31 (utf8_bytes s)"
  let ?v = "le_value ?bs"
  have "\<forall>x\<in>set ?bs. x < 256" using utf8_bytes_less [of s] by (auto dest: in_set_takeD)
  then have "?v < 256 ^ length ?bs" by (rule le_value_less)
  also have "\<dots> \<le> (256 :: int) ^ 31" by (rule power_increasing) simp_all
  finally have lt: "?v < 256 ^ 31" .
  have "(256 :: int) ^ 31 = 2 ^ 248" by simp
  moreover have "(256 :: int) ^ 31 < bn128_scalar_field" by (simp add: bn128_scalar_field_def)
  ultimately have "?v < 2 ^ 248" "?v \<le> 256 ^ 31 - 1" "?v < bn128_scalar_field"
    using lt by linarith+
  then show ?thesis
    using le_value_nonneg [of ?bs] stringToFieldElement_JStr [of s] StringToBigInt_toString [of ?v]
    by blast
qed

section \<open>Request validation of the small routes\<close>

text \<open>
  C9. A POST to \<open>/api/hash\<close> whose body has no \<open>inputs\<close>, or whose \<open>inputs\<close> is not
  an array (the string \<open>"not-an-array"\<close>, say), is answered with status 400 and an
  \<open>error\<close> property, and the hash primitive is not invoked: the handler makes no call.
\<close>

theorem api_hash_rejects_non_array:
  "\<not> Array_isArray (get_prop req_body ''inputs'') \<Longrightarrow>
     api_hash env req_body =
       ([], \<lparr>status = 400, body = Error_body ''Invalid inputs. Expected array of values.''\<rparr>)"
  by (simp add: api_hash_def Let_def)

theorem api_hash_rejects_non_array_witness:
  "\<not> Array_isArray (get_prop (JObj [(''inputs'', JStr ''not-an-array'')]) ''inputs'') \<and>
   \<not> Array_isArray (get_prop (JObj []) ''inputs'') \<and>
   api_hash sample_env (JObj [(''inputs'', JStr ''not-an-array'')]) =
     ([], \<lparr>status = 400, body = Error_body ''Invalid inputs. Expected array of values.''\<rparr>) \<and>
   api_hash sample_env (JObj []) =
     ([], \<lparr>status = 400, body = Error_body ''Invalid inputs. Expected array of values.''\<rparr>)"
proof -
  have h: "\<not> Array_isArray (get_prop (JObj [(''inputs'', JStr ''not-an-array'')]) ''inputs'')"
    by (simp add: Array_isArray_def get_prop_def)
  have k: "\<not> Array_isArray (get_prop (JObj []) ''inputs'')"
    by (simp add: Array_isArray_def get_prop_def)
  from h k api_hash_rejects_non_array [OF h, of sample_env]
    api_hash_rejects_non_array [OF k, of sample_env]
  show ?thesis by simp
qed

text \<open>
  C10. \<open>/api/string-to-field\<close> answers the empty string with status 400, as it does a
  missing value: \<open>stringToFieldElement\<close> is not called and no field element is
  returned, although the encoder maps the empty string to \<open>"0"\<close>.
\<close>

theorem string_to_field_rejects_empty:
  "get_prop req_body ''value'' = Some (JStr []) \<Longrightarrow>
     api_string_to_field req_body =
       ([], \<lparr>status = 400, body = Error_body ''Value is required''\<rparr>)
     \<and> stringToFieldElement (Some (JStr [])) = Inr ''0''"
  by (simp add: api_string_to_field_def Let_def js_not_def stringToFieldElement_empty)

theorem string_to_field_rejects_empty_witness:
  "get_prop (JObj [(''value'', JStr [])]) ''value'' = Some (JStr []) \<and>
   api_string_to_field (JObj [(''value'', JStr [])]) =
     ([], \<lparr>status = 400, body = Error_body ''Value is required''\<rparr>)"
proof -
  have h: "get_prop (JObj [(''value'', JStr [])]) ''value'' = Some (JStr [])"
    by (simp add: get_prop_def)
  from h string_to_field_rejects_empty [OF h] show ?thesis by simp
qed

section \<open>Computations and their traces\<close>

lemma andThen_emit: "andThen (emit k) f = (k # fst (f ()), snd (f ()))"
  by (simp add: andThen_def emit_def split: prod.splits)

lemma andThen_lift_Inl: "andThen (lift (Inl e)) f = ([], Inl e)"
  by (simp add: andThen_def lift_def)

lemma andThen_lift_Inr: "andThen (lift (Inr x)) f = f x"
  by (simp add: andThen_def lift_def split: prod.splits)

lemma andThen_Inl: "snd m = Inl e \<Longrightarrow> andThen m f = (fst m, Inl e)"
  by (cases m) (simp add: andThen_def)

lemma andThen_Inr: "snd m = Inr x \<Longrightarrow> andThen m f = (fst m @ fst (f x), snd (f x))"
  by (cases m) (simp add: andThen_def split: prod.splits)

lemma andThen_lift:
  "andThen (lift r) f = (case r of Inl e \<Rightarrow> ([], Inl e) | Inr x \<Rightarrow> f x)"
  by (cases r) (simp_all add: andThen_lift_Inl andThen_lift_Inr)

lemma hashWithPoseidon_eq:
  "hashWithPoseidon env xs =
     ([Poseidon xs],
      case poseidon env xs of
        Inl e \<Rightarrow> Inl e
      | Inr h \<Rightarrow> Inr (case h of HBigInt n \<Rightarrow> BigInt_toString n
                            | HObject x \<Rightarrow> F_toString env x
                            | HOther s \<Rightarrow> s))"
  by (cases "poseidon env xs")
    (simp_all add: hashWithPoseidon_def andThen_emit andThen_lift_Inl andThen_lift_Inr ret_def)

lemma fst_hashWithPoseidon: "fst (hashWithPoseidon env xs) = [Poseidon xs]"
  by (simp add: hashWithPoseidon_eq)

lemma andThen_hash:
  "andThen (hashWithPoseidon env xs) f =
     (case snd (hashWithPoseidon env xs) of
        Inl e \<Rightarrow> ([Poseidon xs], Inl e)
      | Inr h \<Rightarrow> (Poseidon xs # fst (f h), snd (f h)))"
  by (cases "snd (hashWithPoseidon env xs)")
    (simp_all add: andThen_Inl andThen_Inr fst_hashWithPoseidon)

lemma stringToFieldElement_field_value:
  "stringToFieldElement v =
     (case field_value v of Inl e \<Rightarrow> Inl e | Inr n \<Rightarrow> Inr (BigInt_toString n))"
  by (simp add: stringToFieldElement_def field_value_def split: sum.splits)

lemma field_value_JStr: "field_value (Some (JStr s)) = Inr (le_value (take 31 (utf8_bytes s)))"
  by (simp add: field_value_def TextEncoder_encode_def encode_loop_le_value)

lemma call_stringToFieldElement_eq:
  "call_stringToFieldElement v = ([StringToField v], stringToFieldElement v)"
  by (simp add: call_stringToFieldElement_def andThen_emit lift_def)

lemma andThen_call_stringToFieldElement:
  "andThen (call_stringToFieldElement v) f =
     (case field_value v of
        Inl e \<Rightarrow> ([StringToField v], Inl e)
      | Inr n \<Rightarrow> (StringToField v # fst (f (BigInt_toString n)), snd (f (BigInt_toString n))))"
  by (cases "field_value v")
    (simp_all add: call_stringToFieldElement_eq stringToFieldElement_field_value
      andThen_Inl andThen_Inr)

lemma fst_catch500: "fst (catch500 h m) = fst m"
  by (cases m; cases "snd m") (auto simp: catch500_def)

lemma fst_andThen_ret: "fst (andThen m (\<lambda>x. ret (f x))) = fst m"
  by (cases m; cases "snd m") (auto simp: andThen_def ret_def)

lemma status_catch500_andThen_ret:
  "status (snd (catch500 h (andThen m (\<lambda>x. ret \<lparr>status = 200, body = f x\<rparr>)))) \<noteq> 400"
  by (cases m; cases "snd m") (auto simp: catch500_def andThen_def ret_def)


section \<open>Normalisation of the prover's output\<close>

lemma generateProof_thrown:
  "fullProve env inputs = Inl e \<Longrightarrow>
     generateProof env inputs = ([FullProve inputs], Inl (ProofFailed e))"
  by (simp add: generateProof_def andThen_emit andThen_lift_Inl)

lemma generateProof_returned:
  "fullProve env inputs = Inr (prf, sigs) \<Longrightarrow>
     generateProof env inputs =
       ([FullProve inputs],
        case normalized prf sigs of Inl e \<Rightarrow> Inl (ProofFailed e) | Inr res \<Rightarrow> Inr res)"
  by (simp add: generateProof_def andThen_emit andThen_lift_Inr)
    (simp add: lift_def split: sum.splits)

lemma fst_generateProof: "fst (generateProof env inputs) = [FullProve inputs]"
proof (cases "fullProve env inputs")
  case (Inl e)
  then show ?thesis by (simp add: generateProof_thrown)
next
  case (Inr r)
  then show ?thesis by (cases r) (simp add: generateProof_returned)
qed


lemma sample_generateProof:
  "generateProof sample_env inputs =
     ([FullProve inputs],
      Inr \<lparr>proof_data =
             \<lparr>a = [Some ''11'', Some ''12''],
              b = [[Some ''22'', Some ''21''], [Some ''24'', Some ''23'']],
              c = [Some ''31'', Some ''32'']\<rparr>,
           publicSignals = [''1'']\<rparr>)"
proof -
  have "fullProve sample_env inputs = Inr (sample_proof, [''1''])"
    by (simp add: sample_env_def)
  then show ?thesis
    by (simp add: generateProof_returned normalized_def js_index_def sample_proof_def)
qed


text \<open>
  C3. Whatever the prover returns, \<open>generateProof\<close> hands back, when the raw \<open>pi_b\<close>
  has its rows 0 and 1, the artifact whose \<open>b\<close> has row \<open>i\<close> equal to
  \<open>[pi_b[i][1], pi_b[i][0]]\<close> for \<open>i = 0, 1\<close>, and whose \<open>a\<close> and \<open>c\<close> are the first
  two coordinates of \<open>pi_a\<close> and \<open>pi_c\<close> in their order, with the public signals
  unchanged; without these rows the reads throw and no artifact is returned.
\<close>

theorem generateProof_swaps_b:
  "fullProve env inputs = Inr (prf, sigs) \<Longrightarrow>
     generateProof env inputs =
       ([FullProve inputs],
        if 2 \<le> length (pi_b prf)
        then Inr \<lparr>proof_data =
                    \<lparr>a = [js_index (pi_a prf) 0, js_index (pi_a prf) 1],
                     b = [[js_index (pi_b prf ! 0) 1, js_index (pi_b prf ! 0) 0],
                          [js_index (pi_b prf ! 1) 1, js_index (pi_b prf ! 1) 0]],
                     c = [js_index (pi_c prf) 0, js_index (pi_c prf) 1]\<rparr>,
                  publicSignals = sigs\<rparr>
        else Inl (ProofFailed TypeError))"
  by (simp add: generateProof_returned normalized_def js_index_def)

theorem generateProof_swaps_b_witness:
  "fullProve sample_env sample_witness = Inr (sample_proof, [''1'']) \<and>
   generateProof sample_env sample_witness =
     ([FullProve sample_witness],
      Inr \<lparr>proof_data =
             \<lparr>a = [Some ''11'', Some ''12''],
              b = [[Some ''22'', Some ''21''], [Some ''24'', Some ''23'']],
              c = [Some ''31'', Some ''32'']\<rparr>,
           publicSignals = [''1'']\<rparr>)"
proof -
  have h: "fullProve sample_env sample_witness = Inr (sample_proof, [''1''])"
    by (simp add: sample_env_def)
  from h generateProof_swaps_b [OF h] show ?thesis
    by (simp add: sample_proof_def js_index_def)
qed


section \<open>The witness check of /api/generate-proof\<close>

text \<open>
  C4, as stated, fails: a request whose \<open>username\<close> is \<open>"abc"\<close>, which is no
  non-negative integer string, is not answered with status 400 before the prover runs.
  The prover is invoked with it; when the prover rejects it the answer is 500, and when
  the prover returns a proof the answer is 200.
\<close>

theorem generate_proof_unparsed_counterexample:
  "\<not> spec_wellformed_field (get_prop unparsed_request ''username'') \<and>
   api_generate_proof rejecting_env unparsed_request =
     ([FullProve \<lparr>username = Some (JStr ''abc''), password = Some (JStr ''1''),
                  username_hash = Some (JStr ''2''), credential_hash = Some (JStr ''3''),
                  nonce = Some (JStr ''4''), result_hash = Some (JStr ''5'')\<rparr>],
      \<lparr>status = 500,
       body = Failure (ProofFailed (Thrown ''Cannot convert abc to a BigInt''))\<rparr>) \<and>
   status (snd (api_generate_proof sample_env unparsed_request)) = 200 \<and>
   fst (api_generate_proof sample_env unparsed_request) =
     [FullProve \<lparr>username = Some (JStr ''abc''), password = Some (JStr ''1''),
                 username_hash = Some (JStr ''2''), credential_hash = Some (JStr ''3''),
                 nonce = Some (JStr ''4''), result_hash = Some (JStr ''5'')\<rparr>]"
proof -
  have props: "get_prop unparsed_request ''username'' = Some (JStr ''abc'')"
    "get_prop unparsed_request ''password'' = Some (JStr ''1'')"
    "get_prop unparsed_request ''username_hash'' = Some (JStr ''2'')"
    "get_prop unparsed_request ''credential_hash'' = Some (JStr ''3'')"
    "get_prop unparsed_request ''nonce'' = Some (JStr ''4'')"
    "get_prop unparsed_request ''result_hash'' = Some (JStr ''5'')"
    by (simp_all add: unparsed_request_def get_prop_def)
  have "fullProve rejecting_env inputs = Inl (Thrown ''Cannot convert abc to a BigInt'')"
    for inputs by (simp add: rejecting_env_def)
  then have rejected: "generateProof rejecting_env inputs =
      ([FullProve inputs], Inl (ProofFailed (Thrown ''Cannot convert abc to a BigInt'')))"
    for inputs by (rule generateProof_thrown)
  show ?thesis
    by (simp add: api_generate_proof_def props js_not_def spec_wellformed_field_def
        is_decimal_def rejected sample_generateProof andThen_Inl andThen_Inr catch500_def
        ret_def)
qed

text \<open>
  C4, amended. The handler checks that each of the six fields is present and truthy
  (not missing, \<open>null\<close>, \<open>false\<close>, 0 or the empty string). If one is not, it
  answers 400 and makes no call, so the prover is not invoked. If all are, the prover is
  invoked exactly once with the six values as they came, whatever they are, and the
  answer is not 400.
\<close>

theorem generate_proof_presence_check:
  "(list_ex (\<lambda>k. js_not (get_prop req_body k)) witness_fields \<longrightarrow>
      api_generate_proof env req_body =
        ([], \<lparr>status = 400, body = Error_body missing_fields_message\<rparr>))
   \<and> (\<not> list_ex (\<lambda>k. js_not (get_prop req_body k)) witness_fields \<longrightarrow>
      status (snd (api_generate_proof env req_body)) \<noteq> 400 \<and>
      fst (api_generate_proof env req_body) =
        [FullProve \<lparr>username = get_prop req_body ''username'',
                    password = get_prop req_body ''password'',
                    username_hash = get_prop req_body ''username_hash'',
                    credential_hash = get_prop req_body ''credential_hash'',
                    nonce = get_prop req_body ''nonce'',
                    result_hash = get_prop req_body ''result_hash''\<rparr>])"
  by (simp add: witness_fields_def api_generate_proof_def status_catch500_andThen_ret
      fst_catch500 fst_andThen_ret fst_generateProof)

theorem generate_proof_presence_check_witness:
  "list_ex (\<lambda>k. js_not (get_prop incomplete_request k)) witness_fields \<and>
   api_generate_proof sample_env incomplete_request =
     ([], \<lparr>status = 400, body = Error_body missing_fields_message\<rparr>) \<and>
   \<not> list_ex (\<lambda>k. js_not (get_prop unparsed_request k)) witness_fields \<and>
   status (snd (api_generate_proof sample_env unparsed_request)) \<noteq> 400"
proof -
  have h: "list_ex (\<lambda>k. js_not (get_prop incomplete_request k)) witness_fields"
    by (simp add: witness_fields_def incomplete_request_def get_prop_def js_not_def)
  have k: "\<not> list_ex (\<lambda>k. js_not (get_prop unparsed_request k)) witness_fields"
    by (simp add: witness_fields_def unparsed_request_def get_prop_def js_not_def)
  from h k generate_proof_presence_check [of incomplete_request sample_env]
    generate_proof_presence_check [of unparsed_request sample_env]
  show ?thesis by blast
qed


section \<open>The derivation of the commitments\<close>

lemma derive_success:
  "derive env r usr pattern nce = (t, Inr d) \<longleftrightarrow>
     (\<exists>u joined p uh ch c n rh.
        field_value usr = Inr u \<and>
        js_join [] (elements pattern) = Inr joined \<and>
        field_value (Some (JStr joined)) = Inr p \<and>
        snd (hashWithPoseidon env [u]) = Inr uh \<and>
        snd (hashWithPoseidon env [u, p]) = Inr ch \<and>
        BigInt_of_string ch = Inr c \<and>
        js_BigInt (nonceValue r nce) = Inr n \<and>
        snd (hashWithPoseidon env [c, n]) = Inr rh \<and>
        d = \<lparr>usernameField = BigInt_toString u, passwordField = BigInt_toString p,
             usernameHash = uh, credentialHash = ch, nonce_value = nonceValue r nce,
             resultHash = rh\<rparr> \<and>
        t = [StringToField usr, StringToField (Some (JStr joined)),
             Poseidon [u], Poseidon [u, p], Poseidon [c, n]])"
  unfolding derive_def andThen_call_stringToFieldElement andThen_hash andThen_lift
    BigInt_of_string_toString
  by (auto simp: ret_def split: sum.splits)

lemma derive_successI:
  assumes "field_value usr = Inr u"
    and "js_join [] (elements pattern) = Inr joined"
    and "field_value (Some (JStr joined)) = Inr p"
    and "snd (hashWithPoseidon env [u]) = Inr uh"
    and "snd (hashWithPoseidon env [u, p]) = Inr ch"
    and "BigInt_of_string ch = Inr cv"
    and "js_BigInt (nonceValue r nce) = Inr n"
    and "snd (hashWithPoseidon env [cv, n]) = Inr rh"
  shows "derive env r usr pattern nce =
     ([StringToField usr, StringToField (Some (JStr joined)),
       Poseidon [u], Poseidon [u, p], Poseidon [cv, n]],
      Inr \<lparr>usernameField = BigInt_toString u, passwordField = BigInt_toString p,
           usernameHash = uh, credentialHash = ch, nonce_value = nonceValue r nce,
           resultHash = rh\<rparr>)"
  unfolding derive_def andThen_call_stringToFieldElement andThen_hash andThen_lift
    BigInt_of_string_toString
  using assms by (simp add: ret_def)



lemma stringToFieldElement_parse:
  "stringToFieldElement v = Inr uf \<and> BigInt_of_string uf = Inr u \<longleftrightarrow>
     field_value v = Inr u \<and> uf = BigInt_toString u"
  by (cases "field_value v")
    (auto simp: stringToFieldElement_field_value BigInt_of_string_toString)




subsection \<open>The flow on the sample collaborators\<close>

lemma sample_hash: "snd (hashWithPoseidon sample_env xs) = Inr (BigInt_toString (7 + sum_list xs))"
  by (simp add: hashWithPoseidon_eq sample_env_def)

lemma sample_field_values:
  "field_value (Some (JStr ''u'')) = Inr 117"
  "field_value (Some (JStr ''012'')) = Inr 3289392"
  "field_value (Some (JStr ''210'')) = Inr 3158322"
  "field_value (Some (JStr ''111'')) = Inr 3223857"
  by code_simp+

lemma sample_joins:
  "js_join [] [js_int 0, js_int 1, js_int 2] = Inr ''012''"
  "js_join [] [js_int 2, js_int 1, js_int 0] = Inr ''210''"
  "js_join [] [js_int 1, js_int 11] = Inr ''111''"
  "js_join [] [js_int 11, js_int 1] = Inr ''111''"
  by code_simp+

lemma sample_renderings:
  "BigInt_toString 124 = ''124''"
  "BigInt_toString 12345 = ''12345''"
  "BigInt_toString 42 = ''42''"
  "BigInt_toString 117 = ''117''"
  "BigInt_toString 3289392 = ''3289392''"
  "BigInt_toString 3158322 = ''3158322''"
  "BigInt_toString 3223857 = ''3223857''"
  "BigInt_toString 3289516 = ''3289516''"
  "BigInt_toString 3158446 = ''3158446''"
  "BigInt_toString 3223981 = ''3223981''"
  "BigInt_toString 3301868 = ''3301868''"
  "BigInt_toString 3289565 = ''3289565''"
  "BigInt_toString 3158495 = ''3158495''"
  "BigInt_toString 3224030 = ''3224030''"
  by code_simp+

lemma sample_derive:
  assumes "field_value usr = Inr u" and "js_join [] pat = Inr joined"
    and "field_value (Some (JStr joined)) = Inr p" and "js_BigInt (nonceValue r nce) = Inr n"
  shows "derive sample_env r usr (Some (JArr pat)) nce =
     ([StringToField usr, StringToField (Some (JStr joined)),
       Poseidon [u], Poseidon [u, p], Poseidon [7 + (u + p), n]],
      Inr \<lparr>usernameField = BigInt_toString u, passwordField = BigInt_toString p,
           usernameHash = BigInt_toString (7 + u),
           credentialHash = BigInt_toString (7 + (u + p)),
           nonce_value = nonceValue r nce,
           resultHash = BigInt_toString (7 + (7 + (u + p) + n))\<rparr>)"
proof (rule derive_successI)
  show "field_value usr = Inr u" by (rule assms(1))
  show "js_join [] (elements (Some (JArr pat))) = Inr joined"
    using assms(2) by (simp only: elements_def option.case json.case)
  show "field_value (Some (JStr joined)) = Inr p" by (rule assms(3))
  show "snd (hashWithPoseidon sample_env [u]) = Inr (BigInt_toString (7 + u))"
    by (simp add: sample_hash)
  show "snd (hashWithPoseidon sample_env [u, p]) = Inr (BigInt_toString (7 + (u + p)))"
    by (simp add: sample_hash)
  show "BigInt_of_string (BigInt_toString (7 + (u + p))) = Inr (7 + (u + p))"
    by (rule BigInt_of_string_toString)
  show "js_BigInt (nonceValue r nce) = Inr n" by (rule assms(4))
  show "snd (hashWithPoseidon sample_env [7 + (u + p), n]) =
      Inr (BigInt_toString (7 + (7 + (u + p) + n)))"
    by (simp add: sample_hash)
qed

lemma sample_derive_012:
  "derive sample_env 42 (Some (JStr ''u'')) (Some (JArr [js_int 0, js_int 1, js_int 2])) None =
     ([StringToField (Some (JStr ''u'')), StringToField (Some (JStr ''012'')),
       Poseidon [117], Poseidon [117, 3289392], Poseidon [3289516, 42]],
      Inr \<lparr>usernameField = ''117'', passwordField = ''3289392'', usernameHash = ''124'',
           credentialHash = ''3289516'', nonce_value = js_int 42, resultHash = ''3289565''\<rparr>)"
proof -
  have "js_BigInt (nonceValue 42 None) = Inr 42" by (simp add: nonceValue_def)
  from sample_derive [OF sample_field_values(1) sample_joins(1) sample_field_values(2) this]
  show ?thesis by (simp add: sample_renderings nonceValue_def)
qed

lemma sample_derive_210:
  "derive sample_env 42 (Some (JStr ''u'')) (Some (JArr [js_int 2, js_int 1, js_int 0])) None =
     ([StringToField (Some (JStr ''u'')), StringToField (Some (JStr ''210'')),
       Poseidon [117], Poseidon [117, 3158322], Poseidon [3158446, 42]],
      Inr \<lparr>usernameField = ''117'', passwordField = ''3158322'', usernameHash = ''124'',
           credentialHash = ''3158446'', nonce_value = js_int 42, resultHash = ''3158495''\<rparr>)"
proof -
  have "js_BigInt (nonceValue 42 None) = Inr 42" by (simp add: nonceValue_def)
  from sample_derive [OF sample_field_values(1) sample_joins(2) sample_field_values(3) this]
  show ?thesis by (simp add: sample_renderings nonceValue_def)
qed








subsection \<open>The witness of the full authentication flow\<close>




subsection \<open>The nonce\<close>



section \<open>The order of the pattern\<close>

lemma decimal_digits_single: "0 \<le> d \<Longrightarrow> d \<le> 9 \<Longrightarrow> decimal_digits d = [digit_char d]"
  by (subst decimal_digits.simps) simp

lemma char_of_nat_int: "0 \<le> k \<Longrightarrow> char_of (nat k) = char_of k"
proof -
  assume "0 \<le> k"
  then have "char_of k = char_of (int (nat k))" by simp
  also have "\<dots> = char_of (nat k)" by (rule char_of_nat)
  finally show ?thesis by simp
qed

lemma join_element_digit:
  "is_digit_value j \<Longrightarrow> join_element j = Inr [char_of (digit_byte j)]"
  by (auto dest!: is_digit_value_cases
      simp: BigInt_toString_def decimal_digits_single digit_char_def char_of_nat_int)

lemma js_join_digits:
  "digit_pattern pat \<Longrightarrow> js_join [] pat = Inr (map (\<lambda>j. char_of (digit_byte j)) pat)"
proof (induction pat)
  case Nil
  show ?case by simp
next
  case (Cons x xs)
  then have x: "join_element x = Inr [char_of (digit_byte x)]"
    and xs: "js_join [] xs = Inr (map (\<lambda>j. char_of (digit_byte j)) xs)"
    by (simp_all add: digit_pattern_def join_element_digit)
  show ?case
  proof (cases xs)
    case Nil
    with x show ?thesis by simp
  next
    case (Cons y ys)
    with x xs show ?thesis by simp
  qed
qed

lemma digit_byte_range: "is_digit_value j \<Longrightarrow> 0 < digit_byte j \<and> digit_byte j < 256"
  by (auto dest!: is_digit_value_cases)

lemma digit_byte_inject:
  "is_digit_value i \<Longrightarrow> is_digit_value j \<Longrightarrow> digit_byte i = digit_byte j \<Longrightarrow> i = j"
  by (auto dest!: is_digit_value_cases)

lemma map_digit_byte_inject:
  "digit_pattern p \<Longrightarrow> digit_pattern q \<Longrightarrow> map digit_byte p = map digit_byte q \<Longrightarrow> p = q"
proof (induction p arbitrary: q)
  case Nil
  then show ?case by simp
next
  case (Cons x xs)
  then obtain y ys where q: "q = y # ys" by (cases q) auto
  with Cons.prems have "is_digit_value x" "is_digit_value y" "digit_byte x = digit_byte y"
    "digit_pattern xs" "digit_pattern ys" "map digit_byte xs = map digit_byte ys"
    by (simp_all add: digit_pattern_def)
  with Cons.IH [of ys] q show ?case by (simp add: digit_byte_inject)
qed

lemma utf8_bytes_digits:
  "digit_pattern pat \<Longrightarrow> utf8_bytes (map (\<lambda>j. char_of (digit_byte j)) pat) = map digit_byte pat"
proof -
  assume "digit_pattern pat"
  then have "\<forall>j\<in>set pat. digit_byte j < 256"
    by (auto simp: digit_pattern_def list_all_iff dest: digit_byte_range)
  then show ?thesis
    by (simp add: utf8_bytes_def of_char_of)
qed

lemma field_value_digits:
  assumes "digit_pattern pat" and "length pat \<le> 31" and "js_join [] pat = Inr joined"
  shows "field_value (Some (JStr joined)) = Inr (le_value (map digit_byte pat))"
proof -
  from assms(1,3) have "joined = map (\<lambda>j. char_of (digit_byte j)) pat"
    by (simp add: js_join_digits)
  with assms(1,2) show ?thesis
    by (simp add: field_value_JStr utf8_bytes_digits)
qed

lemma field_value_digits_inject:
  assumes "digit_pattern p" and "digit_pattern q" and "length p \<le> 31" and "length q \<le> 31"
    and "js_join [] p = Inr jp" and "js_join [] q = Inr jq"
    and "field_value (Some (JStr jp)) = field_value (Some (JStr jq))"
  shows "p = q"
proof -
  from assms have "le_value (map digit_byte p) = le_value (map digit_byte q)"
    by (simp add: field_value_digits)
  moreover have "\<forall>x\<in>set (map digit_byte p). 0 < x \<and> x < 256"
    using assms(1) by (auto simp: digit_pattern_def list_all_iff dest: digit_byte_range)
  moreover have "\<forall>y\<in>set (map digit_byte q). 0 < y \<and> y < 256"
    using assms(2) by (auto simp: digit_pattern_def list_all_iff dest: digit_byte_range)
  ultimately have "map digit_byte p = map digit_byte q"
    by (intro le_value_inject)
  with assms(1,2) show ?thesis by (rule map_digit_byte_inject)
qed


lemma sample_derive_111:
  "derive sample_env 42 (Some (JStr ''u'')) (Some (JArr [js_int 1, js_int 11])) None =
     ([StringToField (Some (JStr ''u'')), StringToField (Some (JStr ''111'')),
       Poseidon [117], Poseidon [117, 3223857], Poseidon [3223981, 42]],
      Inr \<lparr>usernameField = ''117'', passwordField = ''3223857'', usernameHash = ''124'',
           credentialHash = ''3223981'', nonce_value = js_int 42, resultHash = ''3224030''\<rparr>)"
  "derive sample_env 42 (Some (JStr ''u'')) (Some (JArr [js_int 11, js_int 1])) None =
     ([StringToField (Some (JStr ''u'')), StringToField (Some (JStr ''111'')),
       Poseidon [117], Poseidon [117, 3223857], Poseidon [3223981, 42]],
      Inr \<lparr>usernameField = ''117'', passwordField = ''3223857'', usernameHash = ''124'',
           credentialHash = ''3223981'', nonce_value = js_int 42, resultHash = ''3224030''\<rparr>)"
proof -
  have n: "js_BigInt (nonceValue 42 None) = Inr 42" by (simp add: nonceValue_def)
  from sample_derive [OF sample_field_values(1) sample_joins(3) sample_field_values(4) n]
  show "derive sample_env 42 (Some (JStr ''u'')) (Some (JArr [js_int 1, js_int 11])) None =
     ([StringToField (Some (JStr ''u'')), StringToField (Some (JStr ''111'')),
       Poseidon [117], Poseidon [117, 3223857], Poseidon [3223981, 42]],
      Inr \<lparr>usernameField = ''117'', passwordField = ''3223857'', usernameHash = ''124'',
           credentialHash = ''3223981'', nonce_value = js_int 42, resultHash = ''3224030''\<rparr>)"
    by (simp add: sample_renderings nonceValue_def)
  from sample_derive [OF sample_field_values(1) sample_joins(4) sample_field_values(4) n]
  show "derive sample_env 42 (Some (JStr ''u'')) (Some (JArr [js_int 11, js_int 1])) None =
     ([StringToField (Some (JStr ''u'')), StringToField (Some (JStr ''111'')),
       Poseidon [117], Poseidon [117, 3223857], Poseidon [3223981, 42]],
      Inr \<lparr>usernameField = ''117'', passwordField = ''3223857'', usernameHash = ''124'',
           credentialHash = ''3223981'', nonce_value = js_int 42, resultHash = ''3224030''\<rparr>)"
    by (simp add: sample_renderings nonceValue_def)
qed

text \<open>
  C5, as stated, fails: \<open>[1, 11]\<close> and \<open>[11, 1]\<close> hold the same elements in a
  different order, and \<open>pattern.join('')\<close> turns both into \<open>"111"\<close>, so the two
  derivations agree on \<open>passwordField\<close>, on \<open>credentialHash\<close> and on everything else.
\<close>

theorem derive_order_counterexample:
  "[js_int 11, js_int 1] = rev [js_int 1, js_int 11] \<and> [js_int 1, js_int 11] \<noteq> [js_int 11, js_int 1] \<and>
   snd (derive sample_env 42 (Some (JStr ''u'')) (Some (JArr [js_int 1, js_int 11])) None) =
     Inr \<lparr>usernameField = ''117'', passwordField = ''3223857'', usernameHash = ''124'',
          credentialHash = ''3223981'', nonce_value = js_int 42, resultHash = ''3224030''\<rparr> \<and>
   snd (derive sample_env 42 (Some (JStr ''u'')) (Some (JArr [js_int 11, js_int 1])) None) =
     Inr \<lparr>usernameField = ''117'', passwordField = ''3223857'', usernameHash = ''124'',
          credentialHash = ''3223981'', nonce_value = js_int 42, resultHash = ''3224030''\<rparr>"
  by (simp add: sample_derive_111)

text \<open>
  C5, amended. For patterns of single digits 0 to 9 with at most 31 elements, two
  different patterns, such as \<open>[0, 1, 2]\<close> and \<open>[2, 1, 0]\<close>, yield different
  \<open>passwordField\<close> values whenever the derivation returns, for every username; and
  their \<open>credentialHash\<close> values can only agree if the hash primitive maps two
  different input lists to the same output.
\<close>

theorem derive_order_sensitive:
  assumes "digit_pattern p" and "digit_pattern q"
    and "length p \<le> 31" and "length q \<le> 31" and "p \<noteq> q"
    and "derive env r usr (Some (JArr p)) nce = (t, Inr d)"
    and "derive env r' usr (Some (JArr q)) nce' = (t', Inr d')"
  shows "passwordField d \<noteq> passwordField d' \<and>
     (credentialHash d = credentialHash d' \<longrightarrow>
        (\<exists>xs ys. xs \<noteq> ys \<and>
           snd (hashWithPoseidon env xs) = snd (hashWithPoseidon env ys)))"
proof -
  from assms(6) [unfolded derive_success]
  obtain u jp pv ch where one:
    "field_value usr = Inr u" "js_join [] (elements (Some (JArr p))) = Inr jp"
    "field_value (Some (JStr jp)) = Inr pv" "snd (hashWithPoseidon env [u, pv]) = Inr ch"
    "passwordField d = BigInt_toString pv" "credentialHash d = ch"
    by auto
  from assms(7) [unfolded derive_success]
  obtain u' jq qv ch' where two:
    "field_value usr = Inr u'" "js_join [] (elements (Some (JArr q))) = Inr jq"
    "field_value (Some (JStr jq)) = Inr qv" "snd (hashWithPoseidon env [u', qv]) = Inr ch'"
    "passwordField d' = BigInt_toString qv" "credentialHash d' = ch'"
    by auto
  from one(1) two(1) have u: "u' = u" by simp
  have jp: "js_join [] p = Inr jp" and jq: "js_join [] q = Inr jq"
    using one(2) two(2) by (simp_all add: elements_def)
  have ne: "pv \<noteq> qv"
  proof
    assume "pv = qv"
    with one(3) two(3) have "field_value (Some (JStr jp)) = field_value (Some (JStr jq))"
      by simp
    with assms(1-4) jp jq have "p = q" by (rule field_value_digits_inject)
    with assms(5) show False by simp
  qed
  have "passwordField d \<noteq> passwordField d'"
  proof
    assume "passwordField d = passwordField d'"
    with one(5) two(5) have "BigInt_toString pv = BigInt_toString qv" by simp
    then have "pv = qv" by (rule BigInt_toString_inject)
    with ne show False by simp
  qed
  moreover have "credentialHash d = credentialHash d' \<longrightarrow>
        (\<exists>xs ys. xs \<noteq> ys \<and>
           snd (hashWithPoseidon env xs) = snd (hashWithPoseidon env ys))"
  proof
    assume "credentialHash d = credentialHash d'"
    with one(4,6) two(4,6) u
    have same: "snd (hashWithPoseidon env [u, pv]) = snd (hashWithPoseidon env [u, qv])"
      by simp
    from ne have diff: "[u, pv] \<noteq> [u, qv]" by simp
    show "\<exists>xs ys. xs \<noteq> ys \<and>
           snd (hashWithPoseidon env xs) = snd (hashWithPoseidon env ys)"
      using diff same by (intro exI [of _ "[u, pv]"] exI [of _ "[u, qv]"] conjI)
  qed
  ultimately show ?thesis by (rule conjI)
qed

theorem derive_order_sensitive_witness:
  "digit_pattern [js_int 0, js_int 1, js_int 2] \<and> digit_pattern [js_int 2, js_int 1, js_int 0] \<and>
   length [js_int 0, js_int 1, js_int 2] \<le> 31 \<and> length [js_int 2, js_int 1, js_int 0] \<le> 31 \<and>
   [js_int 0, js_int 1, js_int 2] \<noteq> [js_int 2, js_int 1, js_int 0] \<and>
   snd (derive sample_env 42 (Some (JStr ''u'')) (Some (JArr [js_int 0, js_int 1, js_int 2])) None) =
     Inr \<lparr>usernameField = ''117'', passwordField = ''3289392'', usernameHash = ''124'',
          credentialHash = ''3289516'', nonce_value = js_int 42, resultHash = ''3289565''\<rparr> \<and>
   snd (derive sample_env 42 (Some (JStr ''u'')) (Some (JArr [js_int 2, js_int 1, js_int 0])) None) =
     Inr \<lparr>usernameField = ''117'', passwordField = ''3158322'', usernameHash = ''124'',
          credentialHash = ''3158446'', nonce_value = js_int 42, resultHash = ''3158495''\<rparr> \<and>
   ''3289392'' \<noteq> ''3158322''"
proof -
  have h1: "digit_pattern [js_int 0, js_int 1, js_int 2]" and h2: "digit_pattern [js_int 2, js_int 1, js_int 0]"
    by (simp_all add: digit_pattern_def)
  have h3: "length [js_int 0, js_int 1, js_int 2] \<le> 31" and h4: "length [js_int 2, js_int 1, js_int 0] \<le> 31"
    by simp_all
  have h5: "[js_int 0, js_int 1, js_int 2] \<noteq> [js_int 2, js_int 1, js_int 0]" by simp
  from derive_order_sensitive [OF h1 h2 h3 h4 h5 sample_derive_012 sample_derive_210]
  have "''3289392'' \<noteq> ''3158322''" by simp
  with h1 h2 h3 h4 h5 show ?thesis by (simp add: sample_derive_012 sample_derive_210)
qed

end
